theory Spec2Isabelle
  imports Main "HOL-Library.Char_ord" "HOL-Library.List_Lexorder"
begin

section \<open>Server: the in-memory broadcaster and the orders stream route\<close>

text \<open>
  The route module keeps a module-level array \<open>clients\<close> of \<open>{id, controller}\<close>
  pairs and a counter \<open>clientSeq\<close>. A \<open>ReadableStreamDefaultController\<close> is a
  platform object: \<open>enqueue\<close> throws a \<open>TypeError\<close> once the stream is closed or
  errored, and otherwise appends a chunk. Every client owns the controller of its own
  stream, so the controller is kept by value inside the client entry.
\<close>

datatype js_error = TypeError

record controller =
  closed :: bool
  chunks :: "string list"

definition enqueue :: "controller \<Rightarrow> string \<Rightarrow> js_error + controller" where
  "enqueue c m = (if closed c then Inl TypeError else Inr (c\<lparr>chunks := chunks c @ [m]\<rparr>))"

text \<open>\<open>type Client = { id: number; controller: ReadableStreamDefaultController }\<close>\<close>

record Client =
  client_id :: nat
  client_controller :: controller

text \<open>
  The module state: \<open>clients\<close>, \<open>clientSeq\<close>, and the client ids whose 20 second
  heartbeat interval is still set.
\<close>

record server =
  clients :: "Client list"
  clientSeq :: nat
  heartbeats :: "nat list"

definition server0 :: server where
  "server0 = \<lparr>clients = [], clientSeq = 1, heartbeats = []\<rparr>"

text \<open>The request as the route sees it: the query parameters of its URL.\<close>

record request =
  searchParams :: "(string \<times> string) list"

text \<open>
  \<open>createErrorResponse(message, statusCode = 400, error)\<close> of the API helpers; the
  fields of \<open>ApiError\<close> carry the prefix \<open>api_\<close> here (the timestamp is left out).
\<close>

record ApiError =
  api_success :: bool
  api_message :: string
  api_error :: string
  api_statusCode :: nat

datatype response =
    StreamResponse nat "(string \<times> string) list"
  | JsonResponse ApiError nat

definition createErrorResponse :: "string \<Rightarrow> nat \<Rightarrow> string option \<Rightarrow> response" where
  "createErrorResponse msg code err =
     JsonResponse \<lparr>api_success = False, api_message = msg,
                   api_error = (case err of None \<Rightarrow> msg | Some e \<Rightarrow> if e = [] then msg else e),
                   api_statusCode = code\<rparr> code"

definition sse_frame :: "string \<Rightarrow> string \<Rightarrow> string" where
  "sse_frame ev d = ''event: '' @ ev @ [CHR 0x0A] @ ''data: '' @ d @ [CHR 0x0A, CHR 0x0A]"

definition sse_headers :: "(string \<times> string) list" where
  "sse_headers = [(''Content-Type'', ''text/event-stream''),
                  (''Cache-Control'', ''no-cache, no-transform''),
                  (''Connection'', ''keep-alive''),
                  (''X-Accel-Buffering'', ''no'')]"

text \<open>
  \<open>try { c.controller.enqueue(message); } catch {}\<close>: a failed write leaves the
  client as it was and is not propagated.
\<close>

definition try_enqueue :: "string \<Rightarrow> Client \<Rightarrow> Client" where
  "try_enqueue m c =
     (case enqueue (client_controller c) m of
        Inl e \<Rightarrow> c
      | Inr k \<Rightarrow> c\<lparr>client_controller := k\<rparr>)"

text \<open>
  \<open>GET(request)\<close>: the stream's \<open>start\<close> runs inside the constructor. It takes the
  next id, pushes the client, writes the greeting, sets the heartbeat interval and
  registers the abort listener; the route then returns the event-stream response. The
  request's parameters are never read. An exception anywhere is caught and answered with
  the 500 error response.
\<close>

definition GET :: "request \<Rightarrow> server \<Rightarrow> response \<times> server" where
  "GET req sv =
     (let client = \<lparr>client_id = clientSeq sv,
                    client_controller = \<lparr>closed = False, chunks = []\<rparr>\<rparr>;
          sv1 = sv\<lparr>clientSeq := clientSeq sv + 1, clients := clients sv @ [client]\<rparr>
      in case enqueue (client_controller client) (sse_frame ''ping'' ''connected'') of
           Inl e \<Rightarrow> (createErrorResponse ''Failed to open orders stream'' 500 (Some ''SSE Error''), sv1)
         | Inr k \<Rightarrow>
             (StreamResponse (client_id client) sse_headers,
              sv1\<lparr>clients := clients sv @ [client\<lparr>client_controller := k\<rparr>],
                  heartbeats := heartbeats sv @ [client_id client]\<rparr>))"

text \<open>The interval callback of client \<open>i\<close>: a heartbeat frame, write errors swallowed.\<close>

definition heartbeat_tick :: "nat \<Rightarrow> server \<Rightarrow> server" where
  "heartbeat_tick i sv =
     (if i \<in> set (heartbeats sv)
      then sv\<lparr>clients := map (\<lambda>c. if client_id c = i
                                     then try_enqueue (sse_frame ''ping'' ''heartbeat'') c else c)
                               (clients sv)\<rparr>
      else sv)"

text \<open>
  The abort listener of client \<open>i\<close>: \<open>clearInterval\<close>, then
  \<open>findIndex\<close>/\<open>splice\<close> removes the first entry with that id, then the controller is
  closed (errors swallowed); the module no longer refers to the closed stream, so it is
  not part of the state.
\<close>

fun splice_first :: "nat \<Rightarrow> Client list \<Rightarrow> Client list" where
  "splice_first i [] = []"
| "splice_first i (c # cs) = (if client_id c = i then cs else c # splice_first i cs)"

definition abort :: "nat \<Rightarrow> server \<Rightarrow> server" where
  "abort i sv = sv\<lparr>heartbeats := removeAll i (heartbeats sv),
                   clients := splice_first i (clients sv)\<rparr>"

text \<open>
  \<open>emitOrderEvent(type, payload)\<close>. \<open>JSON.stringify\<close> is the platform's; it is a
  parameter here, \<open>None\<close> standing for the \<open>TypeError\<close> it throws on a value it cannot
  serialise, which happens before the loop and outside every \<open>try\<close>.
\<close>

datatype order_event_type = created | updated | deleted

fun type_name :: "order_event_type \<Rightarrow> string" where
  "type_name created = ''created''"
| "type_name updated = ''updated''"
| "type_name deleted = ''deleted''"

definition emitOrderEvent ::
  "('p \<Rightarrow> string option) \<Rightarrow> order_event_type \<Rightarrow> 'p \<Rightarrow> server \<Rightarrow> js_error + server" where
  "emitOrderEvent stringify ty payload sv =
     (case stringify payload of
        None \<Rightarrow> Inl TypeError
      | Some json \<Rightarrow>
          Inr (sv\<lparr>clients := map (try_enqueue (sse_frame (type_name ty) json)) (clients sv)\<rparr>))"

section \<open>Client: the tracking session hook\<close>

text \<open>The payload of a \<open>tracking_update\<close> event, \<open>RealTimeTrackingData\<close>.\<close>

record TrackingHistoryEntry =
  hist_status :: string
  hist_location :: string
  hist_timestamp :: string
  hist_remarks :: "string option"

record LiveTracking =
  live_status :: string
  currentLocation :: "string option"
  estimatedDelivery :: "string option"
  trackingHistory :: "TrackingHistoryEntry list option"

record RealTimeTrackingData =
  data_orderId :: string
  orderNumber :: string
  status :: string
  data_trackingNumber :: "string option"
  carrier :: "string option"
  liveTracking :: "LiveTracking option"
  lastUpdated :: string
  hasNewUpdate :: bool

text \<open>The \<open>data\<close> of a \<open>status_change\<close> event: the handler reads its \<open>message\<close>.\<close>

record StatusData =
  status_message :: "string option"

text \<open>
  \<open>TrackingEvent\<close>, a union tagged by \<open>type\<close>; each case carries the fields its
  branch of the \<open>switch\<close> reads (\<open>None\<close> is an absent \<open>data\<close> or \<open>message\<close>), and
  \<open>Unknown_type\<close> is any other tag, which reaches \<open>default\<close>.
\<close>

datatype TrackingEvent =
    Connected "string option"
  | Tracking_update "RealTimeTrackingData option"
  | Status_change "StatusData option"
  | Heartbeat
  | Error_event "string option"
  | Order_update
  | Unknown_type

text \<open>
  The hook's arguments and options (defaults: notifications, toasts and auto-reconnect on,
  reconnect interval 5000). A callback is either given or not. \<open>notificationGranted\<close>
  is the environment's
  \<open>'Notification' in window && Notification.permission === 'granted'\<close>.
  \<open>reconnectInterval\<close> is a JavaScript number, of a type \<open>'n\<close> left open, and
  \<open>js_times\<close> is the environment's \<open>*\<close> of such a number with an attempt count
  (the product of two doubles, rounded as the platform rounds it).
\<close>

record 'n config =
  orderId :: "string option"
  trackingNumber :: "string option"
  enableNotifications :: bool
  enableToasts :: bool
  autoReconnect :: bool
  reconnectInterval :: 'n
  onStatusChange :: bool
  onTrackingUpdate :: bool
  onConnectionChange :: bool
  notificationGranted :: bool
  js_times :: "'n \<Rightarrow> nat \<Rightarrow> 'n"

text \<open>
  The defaults, with the integers as numbers: the product of an integer interval and an
  attempt count is the integer product as long as it stays below \<open>2^53\<close>, as it does
  for 5000.
\<close>

definition default_config :: "string option \<Rightarrow> string option \<Rightarrow> int config" where
  "default_config oid tn =
     \<lparr>orderId = oid, trackingNumber = tn, enableNotifications = True, enableToasts = True,
      autoReconnect = True, reconnectInterval = 5000, onStatusChange = False,
      onTrackingUpdate = False, onConnectionChange = False, notificationGranted = False,
      js_times = (\<lambda>r n. r * int n)\<rparr>"

text \<open>What the hook does to its surroundings: toasts, notifications, callbacks.\<close>

datatype toast_text = Text string | Reconnecting nat nat

datatype effect =
    ToastSuccess toast_text
  | ToastError toast_text
  | ToastInfo toast_text
  | SystemNotification string "string option"
  | OnConnectionChange bool
  | OnTrackingUpdate "RealTimeTrackingData option"
  | OnStatusChange "StatusData option"

text \<open>What a pending timeout runs: the reconnect closure of \<open>onerror\<close>, or \<open>connect\<close>.\<close>

datatype timer_callback = ReconnectCallback | ConnectCallback

text \<open>The delay of a timeout: a literal of the source, or a number the hook computed.\<close>

datatype 'n delay = Literal nat | Number 'n

text \<open>
  The hook's state and refs, together with the part of the browser they act on:
  \<open>sources\<close> are the \<open>EventSource\<close> objects constructed and not yet closed (each with
  the query parameters of its URL), \<open>timers\<close> the timeouts set and neither fired nor
  cleared (id, delay, callback). Timer ids start at 1, so a handle is truthy.
\<close>

record 'n session =
  trackingData :: "RealTimeTrackingData option"
  isConnected :: bool
  error :: "string option"
  lastUpdate :: "nat option"
  eventSourceRef :: "nat option"
  reconnectTimeoutRef :: "nat option"
  reconnectAttempts :: nat
  sources :: "(nat \<times> (string \<times> string) list) list"
  nextSource :: nat
  timers :: "(nat \<times> 'n delay \<times> timer_callback) list"
  nextTimer :: nat
  effects :: "effect list"

definition session0 :: "'n session" where
  "session0 = \<lparr>trackingData = None, isConnected = False, error = None, lastUpdate = None,
               eventSourceRef = None, reconnectTimeoutRef = None, reconnectAttempts = 0,
               sources = [], nextSource = 0, timers = [], nextTimer = 1, effects = []\<rparr>"

definition maxReconnectAttempts :: nat where
  "maxReconnectAttempts = 5"

text \<open>JavaScript truthiness of an optional string: \<open>undefined\<close> and \<open>''\<close> are falsy.\<close>

fun truthy :: "string option \<Rightarrow> bool" where
  "truthy None = False"
| "truthy (Some s) = (s \<noteq> [])"

text \<open>\<open>a || b\<close> on an optional string.\<close>

definition or_else :: "string option \<Rightarrow> string \<Rightarrow> string" where
  "or_else a b = (if truthy a then the a else b)"

text \<open>A string inside a template literal: \<open>undefined\<close> prints as its name.\<close>

fun template :: "string option \<Rightarrow> string" where
  "template None = ''undefined''"
| "template (Some s) = s"

definition emit :: "effect list \<Rightarrow> 'n session \<Rightarrow> 'n session" where
  "emit es s = s\<lparr>effects := effects s @ es\<rparr>"

definition callback :: "bool \<Rightarrow> effect \<Rightarrow> effect list" where
  "callback given e = (if given then [e] else [])"

definition toast :: "'n config \<Rightarrow> effect \<Rightarrow> effect list" where
  "toast cfg e = (if enableToasts cfg then [e] else [])"

definition showNotification :: "'n config \<Rightarrow> string \<Rightarrow> string option \<Rightarrow> effect list" where
  "showNotification cfg title body =
     (if \<not> enableNotifications cfg then []
      else if notificationGranted cfg then [SystemNotification title body]
      else if enableToasts cfg then [ToastSuccess (Text (title @ '': '' @ template body))]
      else [])"

definition url_params :: "'n config \<Rightarrow> (string \<times> string) list" where
  "url_params cfg =
     (if truthy (orderId cfg) then [(''orderId'', the (orderId cfg))] else []) @
     (if truthy (trackingNumber cfg) then [(''trackingNumber'', the (trackingNumber cfg))] else [])"

definition connect :: "'n config \<Rightarrow> 'n session \<Rightarrow> 'n session" where
  "connect cfg s =
     (if \<not> truthy (orderId cfg) \<and> \<not> truthy (trackingNumber cfg)
      then s\<lparr>error := Some ''Order ID or tracking number is required''\<rparr>
      else s\<lparr>sources := sources s @ [(nextSource s, url_params cfg)],
              nextSource := nextSource s + 1,
              eventSourceRef := Some (nextSource s)\<rparr>)"

definition onopen :: "'n config \<Rightarrow> 'n session \<Rightarrow> 'n session" where
  "onopen cfg s =
     emit (callback (onConnectionChange cfg) (OnConnectionChange True) @
           toast cfg (ToastSuccess (Text ''Live tracking connected'')))
          (s\<lparr>isConnected := True, error := None, reconnectAttempts := 0\<rparr>)"

text \<open>
  \<open>onmessage\<close> at clock reading \<open>now\<close>; the argument is the parsed event, \<open>None\<close>
  when \<open>JSON.parse\<close> throws. Everything is inside one \<open>try\<close>: a \<open>TypeError\<close> from
  reading a field of an absent \<open>data\<close> ends the handler after what it already did.
\<close>

definition onmessage :: "'n config \<Rightarrow> nat \<Rightarrow> TrackingEvent option \<Rightarrow> 'n session \<Rightarrow> 'n session" where
  "onmessage cfg now ev s =
     (case ev of
        None \<Rightarrow> s
      | Some (Connected m) \<Rightarrow> s
      | Some (Tracking_update updateData) \<Rightarrow>
          (let s1 = emit (callback (onTrackingUpdate cfg) (OnTrackingUpdate updateData))
                         (s\<lparr>trackingData := updateData, lastUpdate := Some now\<rparr>)
           in case updateData of
                None \<Rightarrow> s1
              | Some u \<Rightarrow>
                  if hasNewUpdate u \<and> enableToasts cfg
                  then emit [ToastInfo (Text (''Tracking updated for order '' @ orderNumber u))] s1
                  else s1)
      | Some (Status_change d) \<Rightarrow>
          (let s1 = emit (callback (onStatusChange cfg) (OnStatusChange d)) s
           in case d of
                None \<Rightarrow> s1
              | Some sd \<Rightarrow> emit (showNotification cfg ''Order Status Updated'' (status_message sd)) s1)
      | Some Heartbeat \<Rightarrow> s
      | Some (Error_event m) \<Rightarrow>
          emit (toast cfg (ToastError (Text (or_else m ''Tracking error occurred''))))
               (s\<lparr>error := Some (or_else m ''Unknown error'')\<rparr>)
      | Some Order_update \<Rightarrow> s
      | Some Unknown_type \<Rightarrow> s)"

definition onerror :: "'n config \<Rightarrow> 'n session \<Rightarrow> 'n session" where
  "onerror cfg s =
     (let s1 = emit (callback (onConnectionChange cfg) (OnConnectionChange False))
                    (s\<lparr>isConnected := False, error := Some ''Connection error''\<rparr>)
      in if autoReconnect cfg \<and> reconnectAttempts s1 < maxReconnectAttempts
         then (let n = reconnectAttempts s1 + 1;
                   s2 = emit (toast cfg (ToastError (Reconnecting n maxReconnectAttempts)))
                             (s1\<lparr>reconnectAttempts := n\<rparr>)
               in s2\<lparr>timers := timers s2 @ [(nextTimer s2, Number (js_times cfg (reconnectInterval cfg) n), ReconnectCallback)],
                      nextTimer := nextTimer s2 + 1,
                      reconnectTimeoutRef := Some (nextTimer s2)\<rparr>)
         else emit (toast cfg (ToastError (Text ''Failed to connect to live tracking after multiple attempts''))) s1)"

definition disconnect :: "'n config \<Rightarrow> 'n session \<Rightarrow> 'n session" where
  "disconnect cfg s =
     (let s1 = (case eventSourceRef s of
                  None \<Rightarrow> s
                | Some es \<Rightarrow> s\<lparr>sources := filter (\<lambda>x. fst x \<noteq> es) (sources s),
                                 eventSourceRef := None\<rparr>);
          s2 = (case reconnectTimeoutRef s1 of
                  None \<Rightarrow> s1
                | Some t \<Rightarrow> s1\<lparr>timers := filter (\<lambda>x. fst x \<noteq> t) (timers s1),
                                 reconnectTimeoutRef := None\<rparr>)
      in emit (callback (onConnectionChange cfg) (OnConnectionChange False))
              (s2\<lparr>isConnected := False\<rparr>))"

text \<open>The returned \<open>reconnect\<close>: \<open>disconnect(); setTimeout(connect, 1000)\<close>.\<close>

definition reconnect :: "'n config \<Rightarrow> 'n session \<Rightarrow> 'n session" where
  "reconnect cfg s =
     (let s1 = disconnect cfg s
      in s1\<lparr>timers := timers s1 @ [(nextTimer s1, Literal 1000, ConnectCallback)],
             nextTimer := nextTimer s1 + 1\<rparr>)"

definition handleVisibilityChange :: "'n config \<Rightarrow> bool \<Rightarrow> 'n session \<Rightarrow> 'n session" where
  "handleVisibilityChange cfg visible s =
     (if visible \<and> \<not> isConnected s \<and> (truthy (orderId cfg) \<or> truthy (trackingNumber cfg))
      then connect cfg s else s)"

fun run_callback :: "'n config \<Rightarrow> timer_callback \<Rightarrow> 'n session \<Rightarrow> 'n session" where
  "run_callback cfg ReconnectCallback s = connect cfg (disconnect cfg s)"
| "run_callback cfg ConnectCallback s = connect cfg s"

text \<open>
  What can happen to a session. The owner calls \<open>connect\<close>, \<open>disconnect\<close> or
  \<open>reconnect\<close> (the mount effect is a \<open>connect\<close> when a key is given, its cleanup
  a \<open>disconnect\<close>); the browser delivers \<open>open\<close>, \<open>message\<close> and \<open>error\<close> to the
  handlers of a source that is not closed (an \<open>error\<close> is fatal when the browser has
  closed the source itself, and otherwise the source goes on retrying), fires a pending
  timeout, or reports a visibility change.
\<close>

datatype event =
    Connect
  | Disconnect
  | Reconnect
  | Open nat
  | Message nat nat "TrackingEvent option"
  | Error nat bool
  | Timeout nat
  | VisibilityChange bool

definition is_open :: "nat \<Rightarrow> 'n session \<Rightarrow> bool" where
  "is_open es s = (es \<in> fst ` set (sources s))"

fun step :: "'n config \<Rightarrow> event \<Rightarrow> 'n session \<Rightarrow> 'n session" where
  "step cfg Connect s = connect cfg s"
| "step cfg Disconnect s = disconnect cfg s"
| "step cfg Reconnect s = reconnect cfg s"
| "step cfg (Open es) s = (if is_open es s then onopen cfg s else s)"
| "step cfg (Message es now ev) s = (if is_open es s then onmessage cfg now ev s else s)"
| "step cfg (Error es fatal) s =
     (if is_open es s
      then onerror cfg (if fatal then s\<lparr>sources := filter (\<lambda>x. fst x \<noteq> es) (sources s)\<rparr> else s)
      else s)"
| "step cfg (Timeout t) s =
     (case find (\<lambda>x. fst x = t) (timers s) of
        None \<Rightarrow> s
      | Some (t', d, cb) \<Rightarrow> run_callback cfg cb (s\<lparr>timers := filter (\<lambda>x. fst x \<noteq> t) (timers s)\<rparr>))"
| "step cfg (VisibilityChange visible) s = handleVisibilityChange cfg visible s"

fun run :: "'n config \<Rightarrow> event list \<Rightarrow> 'n session \<Rightarrow> 'n session" where
  "run cfg [] s = s"
| "run cfg (e # es) s = run cfg es (step cfg e s)"

section \<open>Client: the multi-order aggregator\<close>

text \<open>
  \<open>Record<string, T>\<close> as an association list with distinct keys;
  \<open>{...prev, [k]: v}\<close> replaces the value of an existing key and appends a new one.
\<close>

fun record_set :: "'k \<Rightarrow> 'v \<Rightarrow> ('k \<times> 'v) list \<Rightarrow> ('k \<times> 'v) list" where
  "record_set k v [] = [(k, v)]"
| "record_set k v (p # m) = (if fst p = k then (k, v) # m else p # record_set k v m)"

record aggregator =
  trackingDataById :: "(string \<times> RealTimeTrackingData) list"
  connections :: "(string \<times> bool) list"

text \<open>The state of \<open>useMultipleOrderTracking(orderIds, options)\<close> on its first render.\<close>

definition useMultipleOrderTracking :: "string list \<Rightarrow> aggregator" where
  "useMultipleOrderTracking orderIds = \<lparr>trackingDataById = [], connections = []\<rparr>"

definition handleTrackingUpdate :: "string \<Rightarrow> RealTimeTrackingData \<Rightarrow> aggregator \<Rightarrow> aggregator" where
  "handleTrackingUpdate oid d a = a\<lparr>trackingDataById := record_set oid d (trackingDataById a)\<rparr>"

definition handleConnectionChange :: "string \<Rightarrow> bool \<Rightarrow> aggregator \<Rightarrow> aggregator" where
  "handleConnectionChange oid c a = a\<lparr>connections := record_set oid c (connections a)\<rparr>"

text \<open>\<open>Object.values(connections).some(Boolean)\<close> and \<open>.every(Boolean)\<close>.\<close>

definition isAnyConnected :: "aggregator \<Rightarrow> bool" where
  "isAnyConnected a = list_ex (\<lambda>b. b) (map snd (connections a))"

definition allConnected :: "aggregator \<Rightarrow> bool" where
  "allConnected a = list_all (\<lambda>b. b) (map snd (connections a))"

text \<open>The connection reports of the child sessions, applied in the order they arrive.\<close>

fun reports :: "(string \<times> bool) list \<Rightarrow> aggregator \<Rightarrow> aggregator" where
  "reports [] a = a"
| "reports (r # rs) a = reports rs (handleConnectionChange (fst r) (snd r) a)"

section \<open>Runs of a session\<close>

text \<open>The states a run passes through, one after each event.\<close>

fun states :: "'n config \<Rightarrow> event list \<Rightarrow> 'n session \<Rightarrow> 'n session list" where
  "states cfg [] s = []"
| "states cfg (e # es) s = step cfg e s # states cfg es (step cfg e s)"

text \<open>An \<open>error\<close> is delivered when its source is not closed.\<close>

fun delivered_error :: "event \<Rightarrow> 'n session \<Rightarrow> bool" where
  "delivered_error (Error es fatal) s = is_open es s"
| "delivered_error e s = False"

text \<open>An \<open>open\<close> is delivered when its source is not closed.\<close>

fun delivered_open :: "event \<Rightarrow> 'n session \<Rightarrow> bool" where
  "delivered_open (Open es) s = is_open es s"
| "delivered_open e s = False"

text \<open>
  The number of transport failures delivered since the last delivered open of a run;
  \<open>k\<close> is the number when the run starts.
\<close>

fun failures_since_open :: "'n config \<Rightarrow> nat \<Rightarrow> event list \<Rightarrow> 'n session \<Rightarrow> nat" where
  "failures_since_open cfg k [] s = k"
| "failures_since_open cfg k (e # es) s =
     failures_since_open cfg
       (if delivered_open e s then 0 else if delivered_error e s then Suc k else k)
       es (step cfg e s)"

text \<open>The clock readings of the messages of a run, in order.\<close>

fun clock :: "event list \<Rightarrow> nat list" where
  "clock [] = []"
| "clock (Message es now ev # evs) = now # clock evs"
| "clock (e # evs) = clock evs"

text \<open>The values \<open>lastUpdate\<close> holds along a run, and the \<open>lastUpdated\<close> of the held data.\<close>

definition receipts :: "'n config \<Rightarrow> event list \<Rightarrow> 'n session \<Rightarrow> nat list" where
  "receipts cfg evs s = List.map_filter lastUpdate (states cfg evs s)"

definition held_lastUpdated :: "'n config \<Rightarrow> event list \<Rightarrow> 'n session \<Rightarrow> string list" where
  "held_lastUpdated cfg evs s =
     List.map_filter (\<lambda>x. map_option lastUpdated (trackingData x)) (states cfg evs s)"

section \<open>Example inputs\<close>

definition order_A :: "int config" where
  "order_A = default_config (Some ''A'') None"

definition no_key :: "int config" where
  "no_key = default_config None (Some [])"

definition update_at :: "string \<Rightarrow> string \<Rightarrow> RealTimeTrackingData" where
  "update_at place stamp =
     \<lparr>data_orderId = ''A'', orderNumber = ''ORD-1'', status = ''shipped'',
      data_trackingNumber = None, carrier = None,
      liveTracking = Some \<lparr>live_status = ''in_transit'', currentLocation = Some place,
                            estimatedDelivery = None, trackingHistory = None\<rparr>,
      lastUpdated = stamp, hasNewUpdate = False\<rparr>"

definition two_updates :: "event list" where
  "two_updates =
     [Connect, Open 0,
      Message 0 1000 (Some (Tracking_update (Some (update_at ''Pune'' ''2024-01-02T00:00:00.000Z'')))),
      Message 0 2000 (Some (Tracking_update (Some (update_at ''Delhi'' ''2024-01-01T00:00:00.000Z''))))]"

text \<open>
  \<open>k\<close> failures in a row, each followed by its reconnect timer firing; and a run in
  which the second transport opens after one failure.
\<close>

fun failure_rounds :: "nat \<Rightarrow> event list" where
  "failure_rounds 0 = []"
| "failure_rounds (Suc k) = failure_rounds k @ [Error k False, Timeout (Suc k)]"

definition opened_after_failure :: "event list" where
  "opened_after_failure = [Connect, Error 0 False, Timeout 1, Open 1]"

definition two_subscribers :: server where
  "two_subscribers =
     \<lparr>clients = [\<lparr>client_id = 1, client_controller = \<lparr>closed = True, chunks = []\<rparr>\<rparr>,
                 \<lparr>client_id = 2, client_controller = \<lparr>closed = False, chunks = []\<rparr>\<rparr>],
      clientSeq = 3, heartbeats = [1, 2]\<rparr>"


section \<open>Auxiliary facts\<close>

subsection \<open>The attempt counter\<close>

lemma attempts_connect: "reconnectAttempts (connect cfg s) = reconnectAttempts s"
  by (simp add: connect_def)

lemma attempts_disconnect: "reconnectAttempts (disconnect cfg s) = reconnectAttempts s"
  by (simp add: disconnect_def emit_def Let_def split: option.splits)

lemma attempts_reconnect: "reconnectAttempts (reconnect cfg s) = reconnectAttempts s"
  by (simp add: reconnect_def Let_def attempts_disconnect)

lemma attempts_onmessage: "reconnectAttempts (onmessage cfg now ev s) = reconnectAttempts s"
  by (simp add: onmessage_def emit_def Let_def split: option.splits TrackingEvent.splits)

lemma attempts_visibility: "reconnectAttempts (handleVisibilityChange cfg v s) = reconnectAttempts s"
  by (simp add: handleVisibilityChange_def attempts_connect)

lemma attempts_run_callback: "reconnectAttempts (run_callback cfg cb s) = reconnectAttempts s"
  by (cases cb) (simp_all add: attempts_connect attempts_disconnect)

lemma attempts_onerror:
  "reconnectAttempts (onerror cfg s) =
     (if autoReconnect cfg \<and> reconnectAttempts s < maxReconnectAttempts
      then Suc (reconnectAttempts s) else reconnectAttempts s)"
  by (simp add: onerror_def emit_def Let_def)

lemma attempts_onopen: "reconnectAttempts (onopen cfg s) = 0"
  by (simp add: onopen_def emit_def)

lemma attempts_step:
  "reconnectAttempts (step cfg e s) =
     (if delivered_open e s then 0
      else if delivered_error e s \<and> autoReconnect cfg \<and> reconnectAttempts s < maxReconnectAttempts
      then Suc (reconnectAttempts s) else reconnectAttempts s)"
  by (cases e)
     (simp_all add: attempts_connect attempts_disconnect attempts_reconnect attempts_onmessage
        attempts_visibility attempts_run_callback attempts_onerror attempts_onopen
        split: option.splits)

lemma attempts_run:
  "autoReconnect cfg \<Longrightarrow> reconnectAttempts s = min maxReconnectAttempts k \<Longrightarrow>
   reconnectAttempts (run cfg evs s) = min maxReconnectAttempts (failures_since_open cfg k evs s)"
proof (induction evs arbitrary: s k)
  case Nil
  then show ?case by simp
next
  case (Cons e evs)
  let ?k = "if delivered_open e s then 0 else if delivered_error e s then Suc k else k"
  have "reconnectAttempts (step cfg e s) = min maxReconnectAttempts ?k"
    using Cons.prems by (simp add: attempts_step maxReconnectAttempts_def)
  from Cons.IH [OF Cons.prems(1) this] show ?case by simp
qed

lemma onerror_schedules:
  "autoReconnect cfg \<Longrightarrow> reconnectAttempts s < maxReconnectAttempts \<Longrightarrow>
   timers (onerror cfg s) =
     timers s @ [(nextTimer s, Number (js_times cfg (reconnectInterval cfg) (Suc (reconnectAttempts s))),
                  ReconnectCallback)] \<and>
   reconnectTimeoutRef (onerror cfg s) = Some (nextTimer s)"
  by (simp add: onerror_def emit_def Let_def)

lemma onerror_gives_up:
  "\<not> reconnectAttempts s < maxReconnectAttempts \<Longrightarrow>
   timers (onerror cfg s) = timers s \<and> reconnectTimeoutRef (onerror cfg s) = reconnectTimeoutRef s"
  by (simp add: onerror_def emit_def Let_def)


subsection \<open>The receipt time\<close>

lemma lastUpdate_connect: "lastUpdate (connect cfg s) = lastUpdate s"
  by (simp add: connect_def)
lemma lastUpdate_disconnect: "lastUpdate (disconnect cfg s) = lastUpdate s"
  by (simp add: disconnect_def emit_def Let_def split: option.splits)
lemma lastUpdate_reconnect: "lastUpdate (reconnect cfg s) = lastUpdate s"
  by (simp add: reconnect_def Let_def lastUpdate_disconnect)
lemma lastUpdate_onopen: "lastUpdate (onopen cfg s) = lastUpdate s"
  by (simp add: onopen_def emit_def)
lemma lastUpdate_onerror: "lastUpdate (onerror cfg s) = lastUpdate s"
  by (simp add: onerror_def emit_def Let_def)
lemma lastUpdate_visibility: "lastUpdate (handleVisibilityChange cfg v s) = lastUpdate s"
  by (simp add: handleVisibilityChange_def lastUpdate_connect)
lemma lastUpdate_run_callback: "lastUpdate (run_callback cfg cb s) = lastUpdate s"
  by (cases cb) (simp_all add: lastUpdate_connect lastUpdate_disconnect)
lemma lastUpdate_onmessage:
  "lastUpdate (onmessage cfg now ev s) = lastUpdate s \<or> lastUpdate (onmessage cfg now ev s) = Some now"
  by (simp add: onmessage_def emit_def Let_def split: option.splits TrackingEvent.splits)

lemma lastUpdate_step:
  "lastUpdate (step cfg e s) = lastUpdate s \<or>
   (\<exists>t \<in> set (clock [e]). lastUpdate (step cfg e s) = Some t)"
proof (cases e)
  case (Message es now ev)
  then show ?thesis using lastUpdate_onmessage [of cfg now ev s] by auto
qed (simp_all add: lastUpdate_connect lastUpdate_disconnect lastUpdate_reconnect lastUpdate_onopen
       lastUpdate_onerror lastUpdate_visibility lastUpdate_run_callback split: option.splits)

lemma clock_Cons: "set (clock (e # evs)) = set (clock [e]) \<union> set (clock evs)"
  by (cases e) simp_all

lemma clock_Cons_sorted: "sorted (clock (e # evs)) \<Longrightarrow> sorted (clock evs) \<and> (\<forall>t \<in> set (clock [e]). \<forall>u \<in> set (clock evs). t \<le> u)"
  by (cases e) simp_all

lemma receipts_Cons:
  "receipts cfg (e # evs) s =
     (case lastUpdate (step cfg e s) of None \<Rightarrow> [] | Some t \<Rightarrow> [t]) @ receipts cfg evs (step cfg e s)"
  by (simp add: receipts_def split: option.splits)

lemma receipts_bound:
  "t \<in> set (receipts cfg evs s) \<Longrightarrow> lastUpdate s = Some t \<or> t \<in> set (clock evs)"
proof (induction evs arbitrary: s)
  case Nil
  then show ?case by (simp add: receipts_def)
next
  case (Cons e evs)
  from Cons.prems consider "lastUpdate (step cfg e s) = Some t" | "t \<in> set (receipts cfg evs (step cfg e s))"
    by (auto simp: receipts_Cons split: option.splits)
  then have "lastUpdate (step cfg e s) = Some t \<or> t \<in> set (clock evs)"
    using Cons.IH by blast
  with lastUpdate_step [of cfg e s] show ?case
    unfolding clock_Cons [of e evs] by auto
qed

lemma receipts_sorted:
  "sorted (clock evs) \<Longrightarrow> (\<forall>t. lastUpdate s = Some t \<longrightarrow> (\<forall>u \<in> set (clock evs). t \<le> u)) \<Longrightarrow>
   sorted (receipts cfg evs s)"
proof (induction evs arbitrary: s)
  case Nil
  then show ?case by (simp add: receipts_def)
next
  case (Cons e evs)
  let ?s = "step cfg e s"
  from clock_Cons_sorted [OF Cons.prems(1)]
  have srt: "sorted (clock evs)" and le: "\<forall>t \<in> set (clock [e]). \<forall>u \<in> set (clock evs). t \<le> u"
    by simp_all
  have inv: "\<forall>t. lastUpdate ?s = Some t \<longrightarrow> (\<forall>u \<in> set (clock evs). t \<le> u)"
    using lastUpdate_step [of cfg e s] Cons.prems(2) le unfolding clock_Cons [of e evs] by auto
  have rest: "sorted (receipts cfg evs ?s)"
    using Cons.IH [OF srt inv] .
  have hd: "\<forall>t. lastUpdate ?s = Some t \<longrightarrow> (\<forall>u \<in> set (receipts cfg evs ?s). t \<le> u)"
  proof (intro allI impI ballI)
    fix t u
    assume t: "lastUpdate ?s = Some t" and u: "u \<in> set (receipts cfg evs ?s)"
    from receipts_bound [OF u] have "u = t \<or> u \<in> set (clock evs)"
      using t by auto
    then show "t \<le> u"
      using inv t by auto
  qed
  show ?case
    using rest hd by (auto simp: receipts_Cons sorted_append split: option.splits)
qed


subsection \<open>Records as association lists\<close>

lemma record_set_keys: "fst ` set (record_set k v m) = insert k (fst ` set m)"
  by (induction m) auto

lemma record_set_distinct: "distinct (map fst m) \<Longrightarrow> distinct (map fst (record_set k v m))"
proof (induction m)
  case Nil
  then show ?case by simp
next
  case (Cons p m)
  then show ?case using record_set_keys [of k v m] by (auto simp: image_iff)
qed

lemma record_set_map_of: "map_of (record_set k v m) = (map_of m)(k \<mapsto> v)"
  by (induction m) (auto simp: fun_eq_iff)

lemma reports_connections:
  "distinct (map fst (connections a)) \<Longrightarrow>
   distinct (map fst (connections (reports rs a))) \<and>
   map_of (connections (reports rs a)) = map_of (connections a) ++ map_of (rev rs)"
proof (induction rs arbitrary: a)
  case Nil
  then show ?case by simp
next
  case (Cons r rs)
  let ?a = "handleConnectionChange (fst r) (snd r) a"
  have d: "distinct (map fst (connections ?a))"
    using Cons.prems by (simp add: handleConnectionChange_def record_set_distinct)
  have m: "map_of (connections ?a) = (map_of (connections a))(fst r \<mapsto> snd r)"
    by (simp add: handleConnectionChange_def record_set_map_of)
  have r: "map_of (rev (r # rs)) = map_of [r] ++ map_of (rev rs)"
    by (simp only: rev.simps map_of_append)
  have u: "(map_of (connections a))(fst r \<mapsto> snd r) = map_of (connections a) ++ map_of [r]"
    by (simp add: fun_eq_iff map_add_def)
  from Cons.IH [OF d] show ?case
    unfolding reports.simps r m u by (simp only: map_add_assoc simp_thms)
qed

lemma every_values: "list_all (\<lambda>b. b) (map snd m) = (\<forall>k. (k, False) \<notin> set m)"
  by (induction m) auto

lemma some_values: "list_ex (\<lambda>b. b) (map snd m) = (\<exists>k. (k, True) \<in> set m)"
  by (induction m) auto

lemma allConnected_map_of:
  "distinct (map fst (connections a)) \<Longrightarrow>
   allConnected a = (\<forall>k. map_of (connections a) k \<noteq> Some False)"
  by (simp add: allConnected_def every_values)

lemma isAnyConnected_map_of:
  "distinct (map fst (connections a)) \<Longrightarrow>
   isAnyConnected a = (\<exists>k. map_of (connections a) k = Some True)"
  by (simp add: isAnyConnected_def some_values)


lemma reports_keys:
  "fst ` set (connections (reports rs a)) = fst ` set (connections a) \<union> fst ` set rs"
proof (induction rs arbitrary: a)
  case Nil
  then show ?case by simp
next
  case (Cons r rs)
  show ?case
    unfolding reports.simps Cons.IH
    by (auto simp: handleConnectionChange_def record_set_keys)
qed

subsection \<open>Writes to one subscriber\<close>

lemma try_enqueue_cases:
  "try_enqueue m c =
    (if closed (client_controller c) then c
     else c\<lparr>client_controller := (client_controller c)\<lparr>chunks := chunks (client_controller c) @ [m]\<rparr>\<rparr>)"
  by (simp add: try_enqueue_def enqueue_def)


section \<open>The claims\<close>

text \<open>
  C1. The claim: over every sequence of connect, disconnect, auto-reconnect and
  visibility-triggered connect steps at most one transport is open, because \<open>connect\<close>
  closes the existing transport and cancels the pending reconnect first. The reconnect
  timer and \<open>reconnect\<close> do call \<open>disconnect\<close> before \<open>connect\<close>, but \<open>connect\<close>
  itself closes nothing, and the visibility handler calls it whenever \<open>isConnected\<close> is
  false. A tab that becomes visible while the first transport is still connecting gets a
  second transport; the first stays open and is no longer referenced.
\<close>

theorem visibility_connect_opens_second_transport:
  "map fst (sources (run order_A [Connect, VisibilityChange True] session0)) = [0, 1] \<and>
   eventSourceRef (run order_A [Connect, VisibilityChange True] session0) = Some 1 \<and>
   length (sources (run order_A [Connect, Connect] session0)) = 2"
  by code_simp

text \<open>
  C2, as stated: a request with neither \<open>orderId\<close> nor \<open>trackingNumber\<close> is rejected
  with an error response before a stream is opened. The route never reads the query: the
  request without keys gets the event-stream response, a registered subscriber and the
  greeting written.
\<close>

theorem GET_without_key_opens_stream:
  "map_of (searchParams \<lparr>searchParams = []\<rparr>) ''orderId'' = None \<and>
   map_of (searchParams \<lparr>searchParams = []\<rparr>) ''trackingNumber'' = None \<and>
   GET \<lparr>searchParams = []\<rparr> server0 =
     (StreamResponse 1 sse_headers,
      \<lparr>clients = [\<lparr>client_id = 1,
                   client_controller = \<lparr>closed = False,
                                         chunks = [sse_frame ''ping'' ''connected'']\<rparr>\<rparr>],
       clientSeq = 2, heartbeats = [1]\<rparr>)"
  by (simp add: GET_def server0_def enqueue_def Let_def)

text \<open>
  C2, amended: every request, with or without keys, opens the stream. The subscriber
  takes the next id and is appended to the clients, the greeting is its first chunk, its
  heartbeat is set, and the response is the event stream.
\<close>

theorem GET_always_opens_stream:
  "GET req sv =
     (StreamResponse (clientSeq sv) sse_headers,
      sv\<lparr>clientSeq := clientSeq sv + 1,
         clients := clients sv @
           [\<lparr>client_id = clientSeq sv,
             client_controller = \<lparr>closed = False, chunks = [sse_frame ''ping'' ''connected'']\<rparr>\<rparr>],
         heartbeats := heartbeats sv @ [clientSeq sv]\<rparr>)"
  by (simp add: GET_def enqueue_def Let_def)

text \<open>
  C3. With auto-reconnect on, let N count the failures delivered since the last delivered
  open of the run (since its start from a zero counter when nothing has opened yet),
  the present one included. For N up to 5 the failure schedules the reconnect closure
  with the delay the platform's product of \<open>reconnectInterval\<close> and N gives, records its
  handle and leaves the counter at N; from the 6th on nothing is scheduled and the
  counter stays at 5. A delivered open sets the counter to zero. The other events of the
  run may be anything, explicit \<open>connect\<close> calls included.
\<close>

theorem backoff_schedule:
  assumes auto: "autoReconnect cfg"
    and fresh: "reconnectAttempts s0 = 0"
    and s: "s = run cfg evs s0"
    and live: "is_open es s"
    and N: "N = Suc (failures_since_open cfg 0 evs s0)"
  shows "(N \<le> 5 \<longrightarrow>
            timers (step cfg (Error es fatal) s) =
              timers s @ [(nextTimer s, Number (js_times cfg (reconnectInterval cfg) N), ReconnectCallback)] \<and>
            reconnectTimeoutRef (step cfg (Error es fatal) s) = Some (nextTimer s) \<and>
            reconnectAttempts (step cfg (Error es fatal) s) = N) \<and>
         (5 < N \<longrightarrow>
            timers (step cfg (Error es fatal) s) = timers s \<and>
            reconnectTimeoutRef (step cfg (Error es fatal) s) = reconnectTimeoutRef s \<and>
            reconnectAttempts (step cfg (Error es fatal) s) = 5) \<and>
         reconnectAttempts (step cfg (Open es) s) = 0"
proof -
  have a: "reconnectAttempts s = min 5 (failures_since_open cfg 0 evs s0)"
    using attempts_run [OF auto, of s0 0 evs] fresh s by (simp add: maxReconnectAttempts_def)
  let ?s' = "if fatal then s\<lparr>sources := filter (\<lambda>x. fst x \<noteq> es) (sources s)\<rparr> else s"
  have st: "step cfg (Error es fatal) s = onerror cfg ?s'"
    using live by simp
  have f: "timers ?s' = timers s" "nextTimer ?s' = nextTimer s"
    "reconnectAttempts ?s' = reconnectAttempts s" "reconnectTimeoutRef ?s' = reconnectTimeoutRef s"
    by simp_all
  have reset: "reconnectAttempts (step cfg (Open es) s) = 0"
    using live by (simp add: attempts_onopen)
  have sched: "(N \<le> 5 \<longrightarrow>
            timers (step cfg (Error es fatal) s) =
              timers s @ [(nextTimer s, Number (js_times cfg (reconnectInterval cfg) N), ReconnectCallback)] \<and>
            reconnectTimeoutRef (step cfg (Error es fatal) s) = Some (nextTimer s) \<and>
            reconnectAttempts (step cfg (Error es fatal) s) = N) \<and>
         (5 < N \<longrightarrow>
            timers (step cfg (Error es fatal) s) = timers s \<and>
            reconnectTimeoutRef (step cfg (Error es fatal) s) = reconnectTimeoutRef s \<and>
            reconnectAttempts (step cfg (Error es fatal) s) = 5)"
  proof (cases "N \<le> 5")
    case True
    then have lt: "reconnectAttempts ?s' < maxReconnectAttempts" and eq: "Suc (reconnectAttempts ?s') = N"
      using a N f by (simp_all add: maxReconnectAttempts_def)
    from onerror_schedules [OF auto lt] attempts_onerror [of cfg ?s'] auto lt eq f True
    show ?thesis unfolding st by simp
  next
    case False
    then have ge: "\<not> reconnectAttempts ?s' < maxReconnectAttempts" and eq: "reconnectAttempts ?s' = 5"
      using a N f by (simp_all add: maxReconnectAttempts_def)
    from onerror_gives_up [OF ge] attempts_onerror [of cfg ?s'] ge eq f False
    show ?thesis unfolding st by simp
  qed
  from sched reset show ?thesis by blast
qed

theorem backoff_schedule_witness:
  "autoReconnect order_A \<and> reconnectAttempts (session0 :: int session) = 0 \<and>
   is_open 1 (run order_A opened_after_failure session0) \<and>
   is_open 4 (run order_A (Connect # failure_rounds 4) session0) \<and>
   is_open 5 (run order_A (Connect # failure_rounds 5) session0) \<and>
   timers (step order_A (Error 1 False) (run order_A opened_after_failure session0)) =
     [(2, Number 5000, ReconnectCallback)] \<and>
   timers (step order_A (Error 4 False) (run order_A (Connect # failure_rounds 4) session0)) =
     [(5, Number 25000, ReconnectCallback)] \<and>
   timers (step order_A (Error 5 False) (run order_A (Connect # failure_rounds 5) session0)) = [] \<and>
   reconnectTimeoutRef (step order_A (Error 5 False) (run order_A (Connect # failure_rounds 5) session0)) = None"
proof -
  have a: "autoReconnect order_A" by code_simp
  have z: "reconnectAttempts (session0 :: int session) = 0" by code_simp
  have o1: "is_open 1 (run order_A opened_after_failure session0)" by code_simp
  have o4: "is_open 4 (run order_A (Connect # failure_rounds 4) session0)" by code_simp
  have o5: "is_open 5 (run order_A (Connect # failure_rounds 5) session0)" by code_simp
  have f1: "failures_since_open order_A 0 opened_after_failure session0 = 0" by code_simp
  have f4: "failures_since_open order_A 0 (Connect # failure_rounds 4) session0 = 4" by code_simp
  have f5: "failures_since_open order_A 0 (Connect # failure_rounds 5) session0 = 5" by code_simp
  have t1: "timers (run order_A opened_after_failure session0) = []" by code_simp
  have t4: "timers (run order_A (Connect # failure_rounds 4) session0) = []" by code_simp
  have t5: "timers (run order_A (Connect # failure_rounds 5) session0) = []" by code_simp
  have k1: "nextTimer (run order_A opened_after_failure session0) = 2" by code_simp
  have k4: "nextTimer (run order_A (Connect # failure_rounds 4) session0) = 5" by code_simp
  have r5: "reconnectTimeoutRef (run order_A (Connect # failure_rounds 5) session0) = None" by code_simp
  have p1: "js_times order_A (reconnectInterval order_A) (Suc 0) = 5000" by code_simp
  have p5: "js_times order_A (reconnectInterval order_A) (Suc 4) = 25000" by code_simp
  from backoff_schedule [OF a z refl o1 refl, of False]
  have c1: "timers (step order_A (Error 1 False) (run order_A opened_after_failure session0)) =
              [(2, Number 5000, ReconnectCallback)]"
    unfolding f1 t1 k1 p1 by simp
  from backoff_schedule [OF a z refl o4 refl, of False]
  have c4: "timers (step order_A (Error 4 False) (run order_A (Connect # failure_rounds 4) session0)) =
              [(5, Number 25000, ReconnectCallback)]"
    unfolding f4 t4 k4 p5 by simp
  from backoff_schedule [OF a z refl o5 refl, of False]
  have c5: "timers (step order_A (Error 5 False) (run order_A (Connect # failure_rounds 5) session0)) = [] \<and>
            reconnectTimeoutRef (step order_A (Error 5 False) (run order_A (Connect # failure_rounds 5) session0)) = None"
    unfolding f5 t5 r5 by simp
  from a z o1 o4 o5 c1 c4 c5 show ?thesis by blast
qed

text \<open>
  C4. When the payload serialises, \<open>emitOrderEvent\<close> returns normally to its caller;
  every subscriber whose controller accepts writes gets the frame appended, every
  subscriber whose controller throws is left as it was, and no subscriber is added,
  dropped or reordered, wherever the failing subscribers stand in the list.
\<close>

theorem emitOrderEvent_isolated:
  assumes "stringify payload = Some json"
  shows "\<exists>sv'. emitOrderEvent stringify ty payload sv = Inr sv' \<and>
           length (clients sv') = length (clients sv) \<and>
           (\<forall>i < length (clients sv).
              clients sv' ! i =
                (if closed (client_controller (clients sv ! i)) then clients sv ! i
                 else (clients sv ! i)\<lparr>client_controller :=
                        (client_controller (clients sv ! i))\<lparr>chunks :=
                           chunks (client_controller (clients sv ! i)) @ [sse_frame (type_name ty) json]\<rparr>\<rparr>))"
  using assms by (simp add: emitOrderEvent_def try_enqueue_cases)


theorem emitOrderEvent_isolated_witness:
  "(\<lambda>p. Some p) ''{}'' = Some ''{}'' \<and>
   emitOrderEvent (\<lambda>p. Some p) updated ''{}'' two_subscribers =
     Inr \<lparr>clients = [\<lparr>client_id = 1, client_controller = \<lparr>closed = True, chunks = []\<rparr>\<rparr>,
                     \<lparr>client_id = 2,
                      client_controller = \<lparr>closed = False, chunks = [sse_frame ''updated'' ''{}'']\<rparr>\<rparr>],
          clientSeq = 3, heartbeats = [1, 2]\<rparr>"
proof -
  have h: "(\<lambda>p. Some p) ''{}'' = Some ''{}''" by simp
  from emitOrderEvent_isolated [of "\<lambda>p. Some p" "''{}''" "''{}''" updated two_subscribers, OF h]
  obtain sv' where r: "emitOrderEvent (\<lambda>p. Some p) updated ''{}'' two_subscribers = Inr sv'"
    by blast
  have "emitOrderEvent (\<lambda>p. Some p) updated ''{}'' two_subscribers =
     Inr \<lparr>clients = [\<lparr>client_id = 1, client_controller = \<lparr>closed = True, chunks = []\<rparr>\<rparr>,
                     \<lparr>client_id = 2,
                      client_controller = \<lparr>closed = False, chunks = [sse_frame ''updated'' ''{}'']\<rparr>\<rparr>],
          clientSeq = 3, heartbeats = [1, 2]\<rparr>"
    using r by (simp add: emitOrderEvent_def two_subscribers_def try_enqueue_cases)
  with h show ?thesis by blast
qed

text \<open>
  C5. When \<open>orderId\<close> and \<open>trackingNumber\<close> are both absent (undefined or empty),
  \<open>connect\<close> sets the validation message and does nothing else: no source is
  constructed, the refs and the connected flag are as before.
\<close>

theorem connect_validation_gate:
  assumes "\<not> truthy (orderId cfg)" and "\<not> truthy (trackingNumber cfg)"
  shows "connect cfg s = s\<lparr>error := Some ''Order ID or tracking number is required''\<rparr> \<and>
         sources (connect cfg s) = sources s \<and>
         nextSource (connect cfg s) = nextSource s \<and>
         eventSourceRef (connect cfg s) = eventSourceRef s \<and>
         isConnected (connect cfg s) = isConnected s"
  using assms by (simp add: connect_def)

theorem connect_validation_gate_witness:
  "\<not> truthy (orderId no_key) \<and> \<not> truthy (trackingNumber no_key) \<and>
   error (connect no_key session0) = Some ''Order ID or tracking number is required'' \<and>
   sources (connect no_key session0) = [] \<and>
   eventSourceRef (connect no_key session0) = None \<and>
   isConnected (connect no_key session0) = False"
proof -
  have h1: "\<not> truthy (orderId no_key)" and h2: "\<not> truthy (trackingNumber no_key)"
    by (simp_all add: no_key_def default_config_def)
  from connect_validation_gate [OF h1 h2, of session0] h1 h2 show ?thesis
    by (simp add: session0_def)
qed

text \<open>
  C6, as stated: the \<open>lastUpdated\<close> of the held tracking data never decreases from one
  replacement to the next. The held data is the payload as it arrived, so two updates
  whose \<open>lastUpdated\<close> go backwards leave a held value that went backwards.
\<close>

theorem held_lastUpdated_decreases:
  "held_lastUpdated order_A two_updates session0 =
     [''2024-01-02T00:00:00.000Z'', ''2024-01-01T00:00:00.000Z''] \<and>
   \<not> sorted (held_lastUpdated order_A two_updates session0)"
  by code_simp

text \<open>
  C6, amended: what the session stamps itself is \<open>lastUpdate\<close>, set to the clock reading
  at each delivered \<open>tracking_update\<close> together with the replacement of the held data by
  the payload. Over every run from a session that has no \<open>lastUpdate\<close> yet, the values
  \<open>lastUpdate\<close> takes are non-decreasing when the clock readings of the messages are.
\<close>

theorem lastUpdate_nondecreasing:
  "(is_open es s \<longrightarrow>
      lastUpdate (step cfg (Message es now (Some (Tracking_update d))) s) = Some now \<and>
      trackingData (step cfg (Message es now (Some (Tracking_update d))) s) = d) \<and>
   (sorted (clock evs) \<and> lastUpdate s0 = None \<longrightarrow> sorted (receipts cfg evs s0))"
proof -
  have "lastUpdate (onmessage cfg now (Some (Tracking_update d)) s) = Some now \<and>
        trackingData (onmessage cfg now (Some (Tracking_update d)) s) = d"
    by (simp add: onmessage_def emit_def Let_def split: option.splits)
  moreover have "sorted (clock evs) \<and> lastUpdate s0 = None \<longrightarrow> sorted (receipts cfg evs s0)"
    using receipts_sorted [of evs s0 cfg] by simp
  ultimately show ?thesis by simp
qed

theorem lastUpdate_nondecreasing_witness:
  "is_open 0 (run order_A [Connect, Open 0] session0) \<and>
   sorted (clock two_updates) \<and> lastUpdate (session0 :: int session) = None \<and>
   lastUpdate (step order_A (Message 0 1000 (Some (Tracking_update None)))
                 (run order_A [Connect, Open 0] session0)) = Some 1000 \<and>
   sorted (receipts order_A two_updates session0)"
proof -
  have o: "is_open 0 (run order_A [Connect, Open 0] session0)" by code_simp
  have c: "sorted (clock two_updates)" by code_simp
  have n: "lastUpdate (session0 :: int session) = None" by code_simp
  from lastUpdate_nondecreasing [of 0 "run order_A [Connect, Open 0] session0" order_A 1000 None
         two_updates session0] o c n
  show ?thesis by blast
qed

text \<open>
  C7. After two \<open>tracking_update\<close> events in a row the held tracking data is the data of
  the second event, whatever the first carried and whatever was held before.
\<close>

theorem tracking_update_replaces_wholesale:
  "trackingData (onmessage cfg t2 (Some (Tracking_update d2))
                   (onmessage cfg t1 (Some (Tracking_update d1)) s)) = d2"
  by (simp add: onmessage_def emit_def Let_def split: option.splits)

text \<open>
  C8. An aggregator whose recorded flags hold \<open>true\<close> for A and \<open>false\<close> for B has
  \<open>isAnyConnected\<close> true and \<open>allConnected\<close> false; an aggregator over no order ids,
  whose children (there are none) are the only ones to report, has \<open>allConnected\<close>
  true and \<open>isAnyConnected\<close> false.
\<close>

theorem aggregator_flags:
  "(map_of (connections a) A = Some True \<and> map_of (connections a) B = Some False \<longrightarrow>
      isAnyConnected a \<and> \<not> allConnected a) \<and>
   (fst ` set rs \<subseteq> set orderIds \<and> orderIds = [] \<longrightarrow>
      allConnected (reports rs (useMultipleOrderTracking orderIds)) \<and>
      \<not> isAnyConnected (reports rs (useMultipleOrderTracking orderIds)))"
proof -
  have "isAnyConnected a \<and> \<not> allConnected a"
    if "map_of (connections a) A = Some True" and "map_of (connections a) B = Some False"
  proof -
    from that have "(A, True) \<in> set (connections a)" and "(B, False) \<in> set (connections a)"
      by (auto dest: map_of_SomeD)
    then show ?thesis
      unfolding isAnyConnected_def allConnected_def some_values every_values by blast
  qed
  moreover have "allConnected (reports rs (useMultipleOrderTracking orderIds)) \<and>
      \<not> isAnyConnected (reports rs (useMultipleOrderTracking orderIds))"
    if "fst ` set rs \<subseteq> set orderIds" and "orderIds = []"
  proof -
    from that have "rs = []" by simp
    then show ?thesis
      by (simp add: useMultipleOrderTracking_def allConnected_def isAnyConnected_def)
  qed
  ultimately show ?thesis by blast
qed

theorem aggregator_flags_witness:
  "map_of (connections (reports [(''A'', True), (''B'', False)] (useMultipleOrderTracking [''A'', ''B''])))
     ''A'' = Some True \<and>
   map_of (connections (reports [(''A'', True), (''B'', False)] (useMultipleOrderTracking [''A'', ''B''])))
     ''B'' = Some False \<and>
   isAnyConnected (reports [(''A'', True), (''B'', False)] (useMultipleOrderTracking [''A'', ''B''])) \<and>
   \<not> allConnected (reports [(''A'', True), (''B'', False)] (useMultipleOrderTracking [''A'', ''B''])) \<and>
   fst ` set ([] :: (string \<times> bool) list) \<subseteq> set [] \<and>
   allConnected (reports [] (useMultipleOrderTracking [])) \<and>
   \<not> isAnyConnected (reports [] (useMultipleOrderTracking []))"
proof -
  let ?a = "reports [(''A'', True), (''B'', False)] (useMultipleOrderTracking [''A'', ''B''])"
  have h1: "map_of (connections ?a) ''A'' = Some True"
    by (simp add: useMultipleOrderTracking_def handleConnectionChange_def)
  have h2: "map_of (connections ?a) ''B'' = Some False"
    by (simp add: useMultipleOrderTracking_def handleConnectionChange_def)
  have h3: "fst ` set ([] :: (string \<times> bool) list) \<subseteq> set []" by simp
  from aggregator_flags [of ?a "''A''" "''B''" "[]" "[]"] h1 h2 h3 show ?thesis
    by blast
qed

text \<open>
  C9. \<open>disconnect\<close> leaves both refs null, so a second call closes nothing and clears
  nothing: sources and timers are those the first call left, the state is the same, and
  the only trace of the second call is one more \<open>onConnectionChange(false)\<close> when that
  callback is given. The same holds for a first call on a session that is already
  disconnected.
\<close>

theorem disconnect_idempotent:
  "eventSourceRef (disconnect cfg s) = None \<and>
   reconnectTimeoutRef (disconnect cfg s) = None \<and>
   \<not> isConnected (disconnect cfg s) \<and>
   disconnect cfg (disconnect cfg s) =
     (disconnect cfg s)\<lparr>effects := effects (disconnect cfg s) @
                                      callback (onConnectionChange cfg) (OnConnectionChange False)\<rparr> \<and>
   (eventSourceRef s = None \<and> reconnectTimeoutRef s = None \<and> \<not> isConnected s \<longrightarrow>
      disconnect cfg s =
        s\<lparr>effects := effects s @ callback (onConnectionChange cfg) (OnConnectionChange False)\<rparr>)"
  by (simp add: disconnect_def emit_def Let_def split: option.splits)

theorem disconnect_idempotent_witness:
  "eventSourceRef (session0 :: int session) = None \<and>
   reconnectTimeoutRef (session0 :: int session) = None \<and>
   \<not> isConnected (session0 :: int session) \<and>
   disconnect order_A session0 = session0 \<and>
   disconnect order_A (disconnect order_A session0) = session0"
proof -
  have h: "eventSourceRef (session0 :: int session) = None \<and>
           reconnectTimeoutRef (session0 :: int session) = None \<and>
           \<not> isConnected (session0 :: int session)"
    by (simp add: session0_def)
  have c: "callback (onConnectionChange order_A) (OnConnectionChange False) = []"
    by (simp add: callback_def order_A_def default_config_def)
  from disconnect_idempotent [of order_A session0] h
  have 1: "disconnect order_A session0 = session0"
    unfolding c by simp
  from disconnect_idempotent [of order_A session0]
  have 2: "disconnect order_A (disconnect order_A session0) = session0"
    unfolding c 1 by simp
  from h 1 2 show ?thesis by blast
qed

text \<open>
  C10. On the first render the connections record is empty for any list of order ids,
  so \<open>allConnected\<close> is true and \<open>isAnyConnected\<close> false. After any reports, the keys
  of the record are the ids that reported, and both flags are decided by the last
  report of each of those ids alone; the list of order ids plays no part.
\<close>

theorem aggregator_counts_reported_only:
  "connections (useMultipleOrderTracking orderIds) = [] \<and>
   allConnected (useMultipleOrderTracking orderIds) \<and>
   \<not> isAnyConnected (useMultipleOrderTracking orderIds) \<and>
   fst ` set (connections (reports rs (useMultipleOrderTracking orderIds))) = fst ` set rs \<and>
   allConnected (reports rs (useMultipleOrderTracking orderIds)) =
     (\<forall>k \<in> fst ` set rs. map_of (rev rs) k = Some True) \<and>
   isAnyConnected (reports rs (useMultipleOrderTracking orderIds)) =
     (\<exists>k \<in> fst ` set rs. map_of (rev rs) k = Some True)"
proof -
  let ?a0 = "useMultipleOrderTracking orderIds"
  have d0: "distinct (map fst (connections ?a0))"
    by (simp add: useMultipleOrderTracking_def)
  from reports_connections [OF d0, of rs]
  have d: "distinct (map fst (connections (reports rs ?a0)))"
    and m: "map_of (connections (reports rs ?a0)) = map_of (rev rs)"
    by (simp_all add: useMultipleOrderTracking_def)
  have dom: "\<And>k. (map_of (rev rs) k = None) = (k \<notin> fst ` set rs)"
    by (simp add: map_of_eq_None_iff)
  have all: "allConnected (reports rs ?a0) = (\<forall>k \<in> fst ` set rs. map_of (rev rs) k = Some True)"
  proof -
    have "(\<forall>k. map_of (rev rs) k \<noteq> Some False) = (\<forall>k \<in> fst ` set rs. map_of (rev rs) k = Some True)"
    proof (intro iffI allI ballI)
      fix k
      assume h: "\<forall>k. map_of (rev rs) k \<noteq> Some False" and k: "k \<in> fst ` set rs"
      from k dom [of k] obtain v where "map_of (rev rs) k = Some v" by auto
      with h [rule_format, of k] show "map_of (rev rs) k = Some True" by (cases v) simp_all
    next
      fix k
      assume h: "\<forall>k \<in> fst ` set rs. map_of (rev rs) k = Some True"
      show "map_of (rev rs) k \<noteq> Some False"
      proof (cases "k \<in> fst ` set rs")
        case True
        with h have "map_of (rev rs) k = Some True" by blast
        then show ?thesis by simp
      next
        case False
        with dom [of k] show ?thesis by simp
      qed
    qed
    then show ?thesis
      using allConnected_map_of [OF d] m by simp
  qed
  have any: "isAnyConnected (reports rs ?a0) = (\<exists>k \<in> fst ` set rs. map_of (rev rs) k = Some True)"
  proof -
    have "(\<exists>k. map_of (rev rs) k = Some True) = (\<exists>k \<in> fst ` set rs. map_of (rev rs) k = Some True)"
      using dom by (metis option.distinct(1))
    then show ?thesis
      using isAnyConnected_map_of [OF d] m by simp
  qed
  have keys: "fst ` set (connections (reports rs ?a0)) = fst ` set rs"
    by (simp add: reports_keys useMultipleOrderTracking_def)
  show ?thesis
    using all any keys
    by (simp add: useMultipleOrderTracking_def allConnected_def isAnyConnected_def)
qed

theorem aggregator_counts_reported_only_witness:
  "''A'' \<in> fst ` set [(''A'', True)] \<and> map_of (rev [(''A'', True)]) ''A'' = Some True \<and>
   ''B'' \<notin> fst ` set (connections (reports [(''A'', True)] (useMultipleOrderTracking [''A'', ''B'']))) \<and>
   allConnected (reports [(''A'', True)] (useMultipleOrderTracking [''A'', ''B''])) \<and>
   isAnyConnected (reports [(''A'', True)] (useMultipleOrderTracking [''A'', ''B'']))"
proof -
  have h: "''A'' \<in> fst ` set [(''A'', True)] \<and> map_of (rev [(''A'', True)]) ''A'' = Some True"
    by simp
  from aggregator_counts_reported_only [of "[''A'', ''B'']" "[(''A'', True)]"] h
  show ?thesis by simp
qed

end
